theory Spec2Isabelle
  imports Complex_Main
begin

section \<open>Data model of \<open>catsim/cat/simulate.py\<close>\<close>

text \<open>
  The Python exceptions the code can raise, as values. \<open>DrawsExhausted\<close> is not a Python
  exception: the random number generator is modelled as finite lists of pre-drawn values,
  and a run that asks for more draws than were supplied stops with this value (the
  rejection-sampling loop of the selector is unbounded in the source).
\<close>

datatype error =
    UnboundLocalError
  | TypeError
  | IndexError
  | ValueError
  | ZeroDivisionError
  | DrawsExhausted

text \<open>
  One row of the item matrix after \<open>np.append(items, np.zeros(...), axis=1)\<close>:
  columns 0, 1, 2 are the item parameters, column 3 is the exposure counter.
  numpy floats are idealised as real numbers.
\<close>

record item =
  par_a :: real
  par_b :: real
  par_c :: real
  exposure :: real

section \<open>Ability re-estimation: \<open>dodd\<close>\<close>

text \<open>Python's built-in \<open>max\<close> and \<open>min\<close> over a sequence; both raise on an empty one.\<close>

fun py_max :: "real list \<Rightarrow> error + real" where
  "py_max [] = Inl ValueError"
| "py_max (x # xs) = Inr (foldl (\<lambda>m y. if y > m then y else m) x xs)"

fun py_min :: "real list \<Rightarrow> error + real" where
  "py_min [] = Inl ValueError"
| "py_min (x # xs) = Inr (foldl (\<lambda>m y. if y < m then y else m) x xs)"

definition dodd :: "real \<Rightarrow> item list \<Rightarrow> bool \<Rightarrow> error + real" where
  "dodd theta items acertou =
     (let b = map par_b items in
      case py_max b of
        Inl e \<Rightarrow> Inl e
      | Inr b_max \<Rightarrow>
          (case py_min b of
             Inl e \<Rightarrow> Inl e
           | Inr b_min \<Rightarrow>
               Inr (if acertou then theta + ((b_max - theta) / 2)
                    else theta - ((theta - b_min) / 2))))"

section \<open>Metrics: \<open>rmse\<close> and \<open>overlap_rate\<close>\<close>

text \<open>
  \<open>sklearn.metrics.mean_squared_error\<close> is a library function: it raises \<open>ValueError\<close>
  when the two inputs have inconsistent numbers of samples, and also when they have no
  sample at all; otherwise it is the mean of the squared differences.
\<close>

definition mean_squared_error :: "real list \<Rightarrow> real list \<Rightarrow> error + real" where
  "mean_squared_error y_true y_pred =
     (if length y_true \<noteq> length y_pred then Inl ValueError
      else if y_true = [] then Inl ValueError
      else Inr (sum_list (map (\<lambda>(t, p). (t - p)\<^sup>2) (zip y_true y_pred))
                / real (length y_true)))"

definition rmse :: "real list \<Rightarrow> real list \<Rightarrow> error + real" where
  "rmse actual predicted =
     (case mean_squared_error actual predicted of
        Inl e \<Rightarrow> Inl e
      | Inr m \<Rightarrow> Inr (sqrt m))"

text \<open>\<open>np.var\<close>: the mean of the squared deviations from the mean (no exception on an
  empty array, where numpy gives \<open>nan\<close> with a warning).\<close>

definition np_var :: "real list \<Rightarrow> real" where
  "np_var xs =
     (let n = real (length xs);
          m = sum_list xs / n
      in sum_list (map (\<lambda>x. (x - m)\<^sup>2) xs) / n)"

text \<open>
  \<open>bankSize / testSize\<close> and \<open>testSize / bankSize\<close> are divisions of Python integers:
  each raises \<open>ZeroDivisionError\<close> on a zero divisor.
\<close>

definition overlap_rate :: "item list \<Rightarrow> int \<Rightarrow> error + real" where
  "overlap_rate items testSize =
     (let bankSize = int (length items) in
      if testSize = 0 then Inl ZeroDivisionError
      else
        let varR = np_var (map exposure items) in
        if bankSize = 0 then Inl ZeroDivisionError
        else Inr ((real_of_int bankSize / real_of_int testSize) * varR
                  + (real_of_int testSize / real_of_int bankSize)))"

section \<open>The simulation driver: \<open>simCAT\<close>\<close>

text \<open>
  The module \<open>catsim.cat.irt\<close> (Fisher information \<open>inf\<close>, the three-parameter logistic
  function \<open>tpm\<close>, the negative log-likelihood) and scipy's \<open>minimize\<close> are collaborators of
  \<open>simCAT\<close>; they are parameters of the model. \<open>irt_minimize M est rv rows\<close> stands for
  \<open>minimize(negativelogLik, [est], args=[rv, rows], method=optimizer).x[0]\<close>.
\<close>

record irt =
  irt_inf :: "real \<Rightarrow> real \<Rightarrow> real \<Rightarrow> real \<Rightarrow> real"
  irt_tpm :: "real \<Rightarrow> real \<Rightarrow> real \<Rightarrow> real \<Rightarrow> real"
  irt_minimize :: "real \<Rightarrow> bool list \<Rightarrow> item list \<Rightarrow> real"

text \<open>
  The values the random number generator returns, one list per call site, in the order
  the calls are made: \<open>np.random.normal(0, 1, examinees)\<close>, \<open>random.uniform(-5, 5)\<close>,
  \<open>random.randint(0, bank_size)\<close> and \<open>random.uniform()\<close>.
\<close>

record rng =
  normal_draws :: "real list"
  initial_draws :: "real list"
  randint_draws :: "nat list"
  uniform_draws :: "real list"

text \<open>
  The dictionaries appended to \<open>localResults\<close> and \<open>globalResults\<close>. The entry
  \<open>'Id. Itens'\<close> holds the list object \<open>id_itens\<close> itself, not a copy of it: the field is the
  address of that object in the store \<open>st_heap\<close>.
\<close>

record local_result =
  lr_Theta :: real
  lr_Est_Theta :: real
  lr_Id_Itens :: nat
  lr_r_max :: real

record global_result =
  gr_Qtd_Itens :: nat
  gr_RMSE :: real
  gr_Overlap :: real
  gr_r_max :: real

text \<open>The mutable state of a run: the item matrix with its exposure column, the unread
  random draws, the \<open>id_itens\<close> list objects (one is created per exposure cap) and the two
  result lists.\<close>

record sim_state =
  st_items :: "item list"
  st_initial :: "real list"
  st_randint :: "nat list"
  st_uniform :: "real list"
  st_heap :: "nat list list"
  st_localResults :: "local_result list"
  st_globalResults :: "global_result list"

text \<open>The variables of one examinee's test.\<close>

record examinee_state =
  est_theta :: real
  administered_items :: "nat list"
  response_vector :: "bool list"

text \<open>
  Lines 49 to 55, the loop \<open>for counter, i in enumerate(items)\<close>. The pair carried along is
  (\<open>selected_item\<close>, \<open>counter\<close>); \<open>counter\<close> is \<open>None\<close> while the loop variable is unbound.
  \<open>max_inf\<close> is passed unchanged to every iteration: the loop body never assigns it.
\<close>

fun scan ::
  "(real \<Rightarrow> real \<Rightarrow> real \<Rightarrow> real \<Rightarrow> real) \<Rightarrow> real \<Rightarrow> nat list \<Rightarrow> real \<Rightarrow> nat \<Rightarrow> item list
     \<Rightarrow> nat option \<times> nat option \<Rightarrow> nat option \<times> nat option" where
  "scan info est adm max_inf k [] (selected_item, counter) = (selected_item, counter)"
| "scan info est adm max_inf k (i # rest) (selected_item, counter) =
     scan info est adm max_inf (Suc k) rest
       (if k \<notin> set adm \<and> info est (par_a i) (par_b i) (par_c i) > max_inf
        then Some k else selected_item,
        Some k)"

text \<open>
  Lines 66 to 74, the loop \<open>while random_item is None\<close>: each round reads one value of
  \<open>random.randint\<close>. The loop has no bound in the source; the model stops with
  \<open>DrawsExhausted\<close> when the supplied draws run out.
\<close>

fun substitute :: "int list \<Rightarrow> nat list \<Rightarrow> int \<Rightarrow> nat list \<Rightarrow> error + (nat \<times> nat list)" where
  "substitute clusters adm selected_item_cluster [] = Inl DrawsExhausted"
| "substitute clusters adm selected_item_cluster (random_item # draws) =
     (if length clusters \<le> random_item then Inl IndexError
      else if selected_item_cluster = clusters ! random_item \<and> random_item \<notin> set adm
      then Inr (random_item, draws)
      else substitute clusters adm selected_item_cluster draws)"

text \<open>
  Lines 49 to 74: the value of \<open>selected_item\<close> when line 76 is reached, with the unread
  \<open>randint\<close> draws. \<open>clusters\<close> is taken to be a Python list: indexing it with \<open>None\<close>
  is a \<open>TypeError\<close>, with an index past its end an \<open>IndexError\<close>. (The source does not fix
  the container; a numpy array indexed with \<open>None\<close> does not raise at line 64. Only the
  branch \<open>None \<Rightarrow> Inl TypeError\<close> below rests on the choice.) With an empty item matrix
  the loop variable \<open>counter\<close> is unbound at line 62.
\<close>

definition select_item ::
  "irt \<Rightarrow> int list \<Rightarrow> real \<Rightarrow> real \<Rightarrow> nat list \<Rightarrow> item list \<Rightarrow> nat list
     \<Rightarrow> error + (nat option \<times> nat list)" where
  "select_item M clusters r_max est adm items draws =
     (case scan (irt_inf M) est adm 0 0 items (None, None) of
        (selected_item, None) \<Rightarrow> Inl UnboundLocalError
      | (selected_item, Some counter) \<Rightarrow>
          let bank_size = length items in
          if exposure (items ! counter) = 0
             \<or> (exposure (items ! counter) \<noteq> 0
                 \<and> real bank_size / exposure (items ! counter) \<ge> r_max)
          then
            (case selected_item of
               None \<Rightarrow> Inl TypeError
             | Some s \<Rightarrow>
                 if length clusters \<le> s then Inl IndexError
                 else
                   (case substitute clusters adm (clusters ! s) draws of
                      Inl e \<Rightarrow> Inl e
                    | Inr (random_item, draws') \<Rightarrow> Inr (Some random_item, draws')))
          else Inr (selected_item, draws))"

text \<open>
  Lines 49 to 104: one round of the loop \<open>for q in np.arange(n_itens)\<close>. \<open>id_itens\<close> is
  the address of the list that line 76 appends to. \<open>items[None][1]\<close> at line 83 is an
  \<open>IndexError\<close> (\<open>items[None]\<close> has a single row along its first axis), as is a row index
  past the end of the matrix.
\<close>

definition administer ::
  "irt \<Rightarrow> int list \<Rightarrow> real \<Rightarrow> real \<Rightarrow> nat \<Rightarrow> sim_state \<times> examinee_state
     \<Rightarrow> error + (sim_state \<times> examinee_state)" where
  "administer M clusters r_max true_theta id_itens s =
     (case s of (st, ex) \<Rightarrow>
      (case select_item M clusters r_max (est_theta ex) (administered_items ex)
              (st_items st) (st_randint st) of
         Inl e \<Rightarrow> Inl e
       | Inr (None, draws') \<Rightarrow> Inl IndexError
       | Inr (Some selected_item, draws') \<Rightarrow>
           if length (st_items st) \<le> selected_item then Inl IndexError
           else
             (case st_uniform st of
                [] \<Rightarrow> Inl DrawsExhausted
              | u # us \<Rightarrow>
                  let row = st_items st ! selected_item;
                      acertou = (irt_tpm M true_theta (par_a row) (par_b row) (par_c row) \<ge> u);
                      response_vector' = response_vector ex @ [acertou];
                      administered_items' = administered_items ex @ [selected_item];
                      items' = (st_items st)
                                 [selected_item := row\<lparr>exposure := exposure row + 1\<rparr>];
                      st' = st\<lparr>st_items := items',
                               st_randint := draws',
                               st_uniform := us,
                               st_heap := (st_heap st)
                                 [id_itens := st_heap st ! id_itens @ [selected_item]]\<rparr>
                  in
                  (case (if list_all (\<lambda>response. hd response_vector' = response)
                               response_vector'
                         then dodd (est_theta ex) items' acertou
                         else Inr (irt_minimize M (est_theta ex) response_vector'
                                     (map (\<lambda>i. items' ! i) administered_items')))
                   of
                     Inl e \<Rightarrow> Inl e
                   | Inr est_theta' \<Rightarrow>
                       Inr (st', \<lparr>est_theta = est_theta',
                                  administered_items = administered_items',
                                  response_vector = response_vector'\<rparr>)))))"

text \<open>The loop \<open>for q in np.arange(n_itens)\<close>.\<close>

fun run_test ::
  "irt \<Rightarrow> int list \<Rightarrow> real \<Rightarrow> real \<Rightarrow> nat \<Rightarrow> nat \<Rightarrow> sim_state \<times> examinee_state
     \<Rightarrow> error + (sim_state \<times> examinee_state)" where
  "run_test M clusters r_max true_theta id_itens 0 s = Inr s"
| "run_test M clusters r_max true_theta id_itens (Suc q) s =
     (case administer M clusters r_max true_theta id_itens s of
        Inl e \<Rightarrow> Inl e
      | Inr s' \<Rightarrow> run_test M clusters r_max true_theta id_itens q s')"

text \<open>Lines 38 to 112: one round of the loop \<open>for true_theta in true_thetas\<close>; the result
  is the examinee's final estimate and the new state.\<close>

definition examinee ::
  "irt \<Rightarrow> int list \<Rightarrow> nat \<Rightarrow> real \<Rightarrow> nat \<Rightarrow> real \<Rightarrow> sim_state \<Rightarrow> error + (real \<times> sim_state)" where
  "examinee M clusters n_itens r_max id_itens true_theta st =
     (case st_initial st of
        [] \<Rightarrow> Inl DrawsExhausted
      | e0 # rest \<Rightarrow>
          (case run_test M clusters r_max true_theta id_itens n_itens
                  (st\<lparr>st_initial := rest\<rparr>,
                   \<lparr>est_theta = e0, administered_items = [], response_vector = []\<rparr>) of
             Inl e \<Rightarrow> Inl e
           | Inr (st', ex') \<Rightarrow>
               Inr (est_theta ex',
                    st'\<lparr>st_localResults := st_localResults st' @
                          [\<lparr>lr_Theta = true_theta, lr_Est_Theta = est_theta ex',
                            lr_Id_Itens = id_itens, lr_r_max = r_max\<rparr>]\<rparr>)))"

fun examinees_loop ::
  "irt \<Rightarrow> int list \<Rightarrow> nat \<Rightarrow> real \<Rightarrow> nat \<Rightarrow> real list \<Rightarrow> real list \<times> sim_state
     \<Rightarrow> error + (real list \<times> sim_state)" where
  "examinees_loop M clusters n_itens r_max id_itens [] acc = Inr acc"
| "examinees_loop M clusters n_itens r_max id_itens (true_theta # rest) acc =
     (case acc of (estimatedThetasForThisR, st) \<Rightarrow>
      (case examinee M clusters n_itens r_max id_itens true_theta st of
         Inl e \<Rightarrow> Inl e
       | Inr (est, st') \<Rightarrow>
           examinees_loop M clusters n_itens r_max id_itens rest
             (estimatedThetasForThisR @ [est], st')))"

text \<open>
  Lines 32 to 120: one round of the loop \<open>for v, r_max in enumerate(r_maxes)\<close>. With
  \<open>verbose\<close> set, line 33 adds the integer \<open>r_max_interval\<close> to a string, a \<open>TypeError\<close>.
  Line 35 creates a new empty list \<open>id_itens\<close>, at the next free address of the store.
  Nothing in the round writes to the exposure column except line 90.
\<close>

definition cap_pass ::
  "irt \<Rightarrow> int list \<Rightarrow> real list \<Rightarrow> nat \<Rightarrow> bool \<Rightarrow> real \<Rightarrow> sim_state \<Rightarrow> error + sim_state" where
  "cap_pass M clusters true_thetas n_itens verbose r_max st =
     (if verbose then Inl TypeError
      else
        let id_itens = length (st_heap st);
            st1 = st\<lparr>st_heap := st_heap st @ [[]]\<rparr>
        in
        (case examinees_loop M clusters n_itens r_max id_itens true_thetas ([], st1) of
           Inl e \<Rightarrow> Inl e
         | Inr (estimatedThetasForThisR, st2) \<Rightarrow>
             (case rmse true_thetas estimatedThetasForThisR of
                Inl e \<Rightarrow> Inl e
              | Inr rm \<Rightarrow>
                  (case overlap_rate (st_items st2) (int n_itens) of
                     Inl e \<Rightarrow> Inl e
                   | Inr ov \<Rightarrow>
                       Inr (st2\<lparr>st_globalResults := st_globalResults st2 @
                                  [\<lparr>gr_Qtd_Itens = n_itens, gr_RMSE = rm,
                                    gr_Overlap = ov, gr_r_max = r_max\<rparr>]\<rparr>)))))"

fun cap_loop ::
  "irt \<Rightarrow> int list \<Rightarrow> real list \<Rightarrow> nat \<Rightarrow> bool \<Rightarrow> real list \<Rightarrow> sim_state \<Rightarrow> error + sim_state" where
  "cap_loop M clusters true_thetas n_itens verbose [] st = Inr st"
| "cap_loop M clusters true_thetas n_itens verbose (r_max # rest) st =
     (case cap_pass M clusters true_thetas n_itens verbose r_max st of
        Inl e \<Rightarrow> Inl e
      | Inr st' \<Rightarrow> cap_loop M clusters true_thetas n_itens verbose rest st')"

text \<open>\<open>np.linspace(0.1, 1, num)\<close>; with \<open>num = 1\<close> it is \<open>[0.1]\<close>.\<close>

definition r_maxes :: "nat \<Rightarrow> real list" where
  "r_maxes num = map (\<lambda>k. 1 / 10 + real k * ((1 - 1 / 10) / real (num - 1))) [0..<num]"

text \<open>Line 21: the item matrix with a column of zeros appended.\<close>

definition append_exposure :: "(real \<times> real \<times> real) list \<Rightarrow> item list" where
  "append_exposure items =
     map (\<lambda>(a, b, c). \<lparr>par_a = a, par_b = b, par_c = c, exposure = 0\<rparr>) items"

definition initial_state :: "rng \<Rightarrow> (real \<times> real \<times> real) list \<Rightarrow> sim_state" where
  "initial_state g items =
     \<lparr>st_items = append_exposure items,
      st_initial = initial_draws g,
      st_randint = randint_draws g,
      st_uniform = uniform_draws g,
      st_heap = [],
      st_localResults = [],
      st_globalResults = []\<rparr>"

text \<open>
  \<open>simCAT\<close> returns \<open>globalResults\<close> and \<open>localResults\<close>; the third component is the store
  that the \<open>'Id. Itens'\<close> entries of \<open>localResults\<close> point into.
\<close>

definition simCAT ::
  "irt \<Rightarrow> rng \<Rightarrow> (real \<times> real \<times> real) list \<Rightarrow> int list \<Rightarrow> nat \<Rightarrow> nat \<Rightarrow> nat \<Rightarrow> bool
     \<Rightarrow> error + (global_result list \<times> local_result list \<times> nat list list)" where
  "simCAT M g items clusters examinees n_itens r_max_interval verbose =
     (if length (normal_draws g) < examinees then Inl DrawsExhausted
      else
        let true_thetas = take examinees (normal_draws g) in
        (case cap_loop M clusters true_thetas n_itens verbose (r_maxes r_max_interval)
                (initial_state g items) of
           Inl e \<Rightarrow> Inl e
         | Inr st \<Rightarrow> Inr (st_globalResults st, st_localResults st, st_heap st)))"

section \<open>A small bank used in the worked examples\<close>

text \<open>
  Two or three identical items with \<open>a = 1\<close>, \<open>b = 0\<close>, \<open>c = 0\<close> and examinees of true
  ability \<open>0\<close>. On these rows and at ability \<open>0\<close> the provider's functions are constant:
  the information is \<open>1/4\<close> and the probability of a correct response is \<open>1/2\<close>. The
  minimiser is never reached in the examples (every response is correct); it returns its
  starting point.
\<close>

definition example_irt :: irt where
  "example_irt =
     \<lparr>irt_inf = (\<lambda>theta a b c. 1 / 4),
      irt_tpm = (\<lambda>theta a b c. 1 / 2),
      irt_minimize = (\<lambda>est rv rows. est)\<rparr>"


definition example_rng :: rng where
  "example_rng =
     \<lparr>normal_draws = [0, 0],
      initial_draws = [0, 0],
      randint_draws = [0, 1],
      uniform_draws = [1 / 4, 1 / 4]\<rparr>"

definition example_state :: "nat list \<Rightarrow> sim_state" where
  "example_state draws =
     \<lparr>st_items = append_exposure [(1, 0, 0), (1, 0, 0)],
      st_initial = [],
      st_randint = draws,
      st_uniform = [1 / 4, 1 / 4],
      st_heap = [[]],
      st_localResults = [],
      st_globalResults = []\<rparr>"

section \<open>Properties of the metrics and of Dodd's update\<close>

lemma foldl_max_eq: "foldl (\<lambda>m y. if y > m then y else m) (x::real) xs = Max (set (x # xs))"
proof (induction xs arbitrary: x)
  case Nil
  show ?case by simp
next
  case (Cons y ys)
  have "Max (set (x # y # ys)) = Max (set (max x y # ys))"
    by (cases ys) (simp_all add: max.assoc)
  moreover have "(if y > x then y else x) = max x y" by (simp add: max_def)
  ultimately show ?case using Cons.IH [of "max x y"] by simp
qed

lemma foldl_min_eq: "foldl (\<lambda>m y. if y < m then y else m) (x::real) xs = Min (set (x # xs))"
proof (induction xs arbitrary: x)
  case Nil
  show ?case by simp
next
  case (Cons y ys)
  have "Min (set (x # y # ys)) = Min (set (min x y # ys))"
    by (cases ys) (simp_all add: min.assoc)
  moreover have "(if y < x then y else x) = min x y" by (auto simp: min_def)
  ultimately show ?case using Cons.IH [of "min x y"] by simp
qed

lemma py_max_eq: "xs \<noteq> [] \<Longrightarrow> py_max xs = Inr (Max (set xs))"
  by (cases xs) (simp_all only: py_max.simps foldl_max_eq, simp)

lemma py_min_eq: "xs \<noteq> [] \<Longrightarrow> py_min xs = Inr (Min (set xs))"
  by (cases xs) (simp_all only: py_min.simps foldl_min_eq, simp)

lemma dodd_value:
  "items \<noteq> [] \<Longrightarrow>
   dodd theta items acertou =
     Inr (if acertou then theta + (Max (set (map par_b items)) - theta) / 2
          else theta - (theta - Min (set (map par_b items))) / 2)"
  by (simp add: dodd_def py_max_eq py_min_eq)

text \<open>
  Claim C5. For every ability \<open>theta\<close>, every non-empty item bank and either value of the
  latest-response flag, \<open>dodd\<close> returns \<open>theta + (b_max - theta) / 2\<close> after a correct
  response and \<open>theta - (theta - b_min) / 2\<close> after an incorrect one, where \<open>b_max\<close> and
  \<open>b_min\<close> are the greatest and the least difficulty (column 1) over all rows of the bank.
  With \<open>b_max = 3\<close>, \<open>b_min = -2\<close> and \<open>theta = 0\<close> the results are \<open>1.5\<close> and \<open>-1\<close>.
  (On an empty bank there is no greatest difficulty, and \<open>max\<close> raises.)
\<close>

theorem dodd_update:
  assumes "items \<noteq> []"
  shows "dodd theta items True = Inr (theta + (Max (par_b ` set items) - theta) / 2)
       \<and> dodd theta items False = Inr (theta - (theta - Min (par_b ` set items)) / 2)
       \<and> (Max (par_b ` set items) = 3 \<and> Min (par_b ` set items) = -2 \<longrightarrow>
            dodd 0 items True = Inr (3 / 2) \<and> dodd 0 items False = Inr (- 1))"
  using assms by (simp add: dodd_value)

theorem dodd_update_witness:
  "dodd 0 [\<lparr>par_a = 1, par_b = 3, par_c = 0, exposure = 0\<rparr>,
           \<lparr>par_a = 1, par_b = - 2, par_c = 0, exposure = 0\<rparr>] True = Inr (3 / 2)
 \<and> dodd 0 [\<lparr>par_a = 1, par_b = 3, par_c = 0, exposure = 0\<rparr>,
           \<lparr>par_a = 1, par_b = - 2, par_c = 0, exposure = 0\<rparr>] False = Inr (- 1)"
  using dodd_update [of "[\<lparr>par_a = 1, par_b = 3, par_c = 0, exposure = 0\<rparr>,
           \<lparr>par_a = 1, par_b = - 2, par_c = 0, exposure = 0\<rparr>]" 0]
  by simp

lemma sum_list_zip_nth:
  "length xs = length ys \<Longrightarrow>
   sum_list (map f (zip xs ys)) = (\<Sum>i<length xs. f (xs ! i, ys ! i))"
  by (simp add: sum_list_sum_nth atLeast0LessThan)

text \<open>
  Claim C9. \<open>rmse\<close> raises (a \<open>ValueError\<close>, from \<open>mean_squared_error\<close>) whenever the two
  sequences differ in length; for two sequences of the same positive length it returns the
  square root of the mean of the squared differences; \<open>rmse([0,0],[0,0])\<close> is \<open>0\<close> and
  \<open>rmse([1],[-1])\<close> is \<open>2\<close>. (For two empty sequences the mean is not defined, and
  \<open>mean_squared_error\<close> raises there as well.)
\<close>

theorem rmse_spec:
  "(length actual \<noteq> length predicted \<longrightarrow> rmse actual predicted = Inl ValueError)
 \<and> (length actual = length predicted \<and> actual \<noteq> [] \<longrightarrow>
      rmse actual predicted =
        Inr (sqrt ((\<Sum>i<length actual. (actual ! i - predicted ! i)\<^sup>2) / real (length actual))))
 \<and> rmse [0, 0] [0, 0] = Inr 0
 \<and> rmse [1] [- 1] = Inr 2"
proof -
  have a: "length actual \<noteq> length predicted \<longrightarrow> rmse actual predicted = Inl ValueError"
    by (simp add: rmse_def mean_squared_error_def)
  have b: "length actual = length predicted \<and> actual \<noteq> [] \<longrightarrow>
      rmse actual predicted =
        Inr (sqrt ((\<Sum>i<length actual. (actual ! i - predicted ! i)\<^sup>2) / real (length actual)))"
    by (simp add: rmse_def mean_squared_error_def sum_list_zip_nth)
  have c: "rmse [0, 0] [0, 0] = Inr 0"
    by (simp add: rmse_def mean_squared_error_def)
  have s: "sqrt 4 = 2" using real_sqrt_abs [of 2] by simp
  have d: "rmse [1] [- 1] = Inr 2"
    by (simp add: rmse_def mean_squared_error_def s)
  from a b c d show ?thesis by blast
qed

theorem rmse_spec_witness:
  "rmse [1, 2] [1] = Inl ValueError
 \<and> rmse [3, 0] [0, 4] = Inr (sqrt (25 / 2))"
  using rmse_spec [of "[1, 2]" "[1]"] rmse_spec [of "[3, 0]" "[0, 4]"]
  by (simp add: lessThan_Suc numeral_2_eq_2)

lemma sum_list_all_const:
  "(\<forall>x\<in>set xs. x = (k::real)) \<Longrightarrow> sum_list xs = real (length xs) * k"
  by (induction xs) (simp_all add: algebra_simps)

lemma np_var_nonneg: "0 \<le> np_var xs"
  by (auto simp: np_var_def Let_def intro!: divide_nonneg_nonneg sum_list_nonneg)

lemma np_var_zero_iff:
  assumes "xs \<noteq> []"
  shows "np_var xs = 0 \<longleftrightarrow> (\<forall>x\<in>set xs. \<forall>y\<in>set xs. x = y)"
proof
  assume z: "np_var xs = 0"
  define m where "m = sum_list xs / real (length xs)"
  from z assms have "sum_list (map (\<lambda>x. (x - m)\<^sup>2) xs) = 0"
    by (simp add: np_var_def Let_def m_def)
  moreover have "\<And>v. v \<in> set (map (\<lambda>x. (x - m)\<^sup>2) xs) \<Longrightarrow> 0 \<le> v" by auto
  ultimately have "\<forall>v\<in>set (map (\<lambda>x. (x - m)\<^sup>2) xs). v = 0"
    by (simp only: sum_list_nonneg_eq_0_iff)
  then have "\<forall>x\<in>set xs. x = m" by simp
  then show "\<forall>x\<in>set xs. \<forall>y\<in>set xs. x = y" by metis
next
  assume e: "\<forall>x\<in>set xs. \<forall>y\<in>set xs. x = y"
  from assms obtain k where k: "k \<in> set xs" by (cases xs) auto
  with e have all: "\<forall>x\<in>set xs. x = k" by blast
  then have "sum_list xs = real (length xs) * k" by (rule sum_list_all_const)
  with assms have m: "sum_list xs / real (length xs) = k" by simp
  from all have "sum_list (map (\<lambda>x. (x - k)\<^sup>2) xs) = 0"
    by (induction xs) simp_all
  then show "np_var xs = 0" by (simp add: np_var_def Let_def m)
qed

lemma np_var_map_zero_iff:
  "xs \<noteq> [] \<Longrightarrow> np_var (map f xs) = 0 \<longleftrightarrow> (\<forall>x\<in>set xs. \<forall>y\<in>set xs. f x = f y)"
  using np_var_zero_iff [of "map f xs"] by simp

lemma overlap_rate_value:
  "items \<noteq> [] \<Longrightarrow> Q \<noteq> 0 \<Longrightarrow>
   overlap_rate items Q =
     Inr (real (length items) / real_of_int Q * np_var (map exposure items)
          + real_of_int Q / real (length items))"
  by (simp add: overlap_rate_def Let_def)

lemma sum_list_map_nth:
  "sum_list (map g xs) = (\<Sum>i<length xs. g (xs ! i))"
proof -
  have "sum_list (map g xs) = (\<Sum>i = 0..<length xs. map g xs ! i)"
    by (simp add: sum_list_sum_nth)
  also have "\<dots> = (\<Sum>i = 0..<length xs. g (xs ! i))"
    by (rule sum.cong) simp_all
  finally show ?thesis by (simp add: atLeast0LessThan)
qed

lemma np_var_map_nth:
  "np_var (map f xs) =
     (\<Sum>i<length xs. (f (xs ! i) - (\<Sum>j<length xs. f (xs ! j)) / real (length xs))\<^sup>2)
       / real (length xs)"
proof -
  have "np_var (map f xs) =
      sum_list (map (\<lambda>x. (f x - sum_list (map f xs) / real (length xs))\<^sup>2) xs)
        / real (length xs)"
    by (simp add: np_var_def Let_def comp_def)
  then show ?thesis by (simp only: sum_list_map_nth)
qed

text \<open>
  Claim C7. For a bank of \<open>N > 0\<close> items and a positive test length \<open>Q\<close>, \<open>overlap_rate\<close>
  returns \<open>(N / Q) * Var + Q / N\<close>, where \<open>Var\<close> is the population variance of the exposure
  column over the whole bank (the mean over all rows of the squared deviation from the
  column's mean). With \<open>N = 10\<close>, \<open>Q = 5\<close> and ten equal counts it returns \<open>1/2\<close>.
\<close>

theorem overlap_rate_formula:
  "(items \<noteq> [] \<and> 0 < Q \<longrightarrow>
      overlap_rate items Q =
        Inr (real (length items) / real_of_int Q
               * ((\<Sum>i<length items.
                     (exposure (items ! i)
                        - (\<Sum>j<length items. exposure (items ! j)) / real (length items))\<^sup>2)
                  / real (length items))
             + real_of_int Q / real (length items)))
 \<and> (length items = 10 \<and> (\<forall>x\<in>set items. exposure x = k) \<longrightarrow>
      overlap_rate items 5 = Inr (1 / 2))"
proof (intro conjI impI)
  assume h: "items \<noteq> [] \<and> 0 < Q"
  then have "overlap_rate items Q =
     Inr (real (length items) / real_of_int Q * np_var (map exposure items)
          + real_of_int Q / real (length items))"
    by (intro overlap_rate_value) simp_all
  then show "overlap_rate items Q =
        Inr (real (length items) / real_of_int Q
               * ((\<Sum>i<length items.
                     (exposure (items ! i)
                        - (\<Sum>j<length items. exposure (items ! j)) / real (length items))\<^sup>2)
                  / real (length items))
             + real_of_int Q / real (length items))"
    by (simp only: np_var_map_nth)
next
  assume h: "length items = 10 \<and> (\<forall>x\<in>set items. exposure x = k)"
  from h have len: "length items = 10" by (rule conjunct1)
  from h have all: "\<forall>x\<in>set items. exposure x = k" by (rule conjunct2)
  from len have ne: "items \<noteq> []" by auto
  from all have eqs: "\<forall>x\<in>set items. \<forall>y\<in>set items. exposure x = exposure y" by metis
  have v: "np_var (map exposure items) = 0"
    by (rule iffD2 [OF np_var_map_zero_iff [OF ne] eqs])
  have "overlap_rate items 5 =
     Inr (real (length items) / real_of_int 5 * np_var (map exposure items)
          + real_of_int 5 / real (length items))"
    using ne by (intro overlap_rate_value) simp_all
  then show "overlap_rate items 5 = Inr (1 / 2)"
    by (simp add: v len)
qed

theorem overlap_rate_formula_witness:
  "overlap_rate [\<lparr>par_a = 1, par_b = 0, par_c = 0, exposure = 0\<rparr>,
                 \<lparr>par_a = 1, par_b = 0, par_c = 0, exposure = 2\<rparr>] 1 = Inr (5 / 2)
 \<and> overlap_rate (replicate 10 \<lparr>par_a = 1, par_b = 0, par_c = 0, exposure = 3\<rparr>) 5
      = Inr (1 / 2)"
  using overlap_rate_formula [of "[\<lparr>par_a = 1, par_b = 0, par_c = 0, exposure = 0\<rparr>,
                 \<lparr>par_a = 1, par_b = 0, par_c = 0, exposure = 2\<rparr>]" 1]
        overlap_rate_formula [of "replicate 10 \<lparr>par_a = 1, par_b = 0, par_c = 0, exposure = 3\<rparr>" 5 3]
  by (simp add: lessThan_Suc numeral_2_eq_2)

text \<open>
  The lower bound of the overlap statistic, in real arithmetic: for a non-empty bank and
  a positive test length \<open>Q\<close> the value is at least \<open>Q / N\<close>, and it is \<open>Q / N\<close> when all
  exposure counts are equal. The converse (the value is \<open>Q / N\<close> only when the counts are
  equal) is a fact about real numbers that line 174 does not keep in double precision,
  where a small variance term is absorbed by the addition; it is not stated here.
\<close>

lemma overlap_rate_ge_baseline:
  assumes "items \<noteq> []" and "0 < Q"
  shows "\<exists>T. overlap_rate items Q = Inr T
           \<and> real_of_int Q / real (length items) \<le> T
           \<and> ((\<forall>x\<in>set items. \<forall>y\<in>set items. exposure x = exposure y)
                \<longrightarrow> T = real_of_int Q / real (length items))"
proof -
  let ?v = "np_var (map exposure items)"
  let ?c = "real (length items) / real_of_int Q"
  let ?q = "real_of_int Q / real (length items)"
  have c: "0 < ?c" using assms by simp
  have v: "0 \<le> ?v" by (rule np_var_nonneg)
  have z: "(\<forall>x\<in>set items. \<forall>y\<in>set items. exposure x = exposure y) \<longrightarrow> ?v = 0"
    using np_var_map_zero_iff [OF assms(1), of exposure] by blast
  have o: "overlap_rate items Q = Inr (?c * ?v + ?q)"
    using assms by (intro overlap_rate_value) simp_all
  have p: "0 \<le> ?c * ?v"
    by (rule mult_nonneg_nonneg [OF less_imp_le [OF c] v])
  then have le: "?q \<le> ?c * ?v + ?q"
    by linarith
  have eq: "(\<forall>x\<in>set items. \<forall>y\<in>set items. exposure x = exposure y)
      \<longrightarrow> ?c * ?v + ?q = ?q"
  proof
    assume "\<forall>x\<in>set items. \<forall>y\<in>set items. exposure x = exposure y"
    with z have "?v = 0" by (rule mp)
    then show "?c * ?v + ?q = ?q" by simp
  qed
  from o le eq show ?thesis by (intro exI [of _ "?c * ?v + ?q"] conjI)
qed

text \<open>
  The size of the term that is absorbed: with the counts \<open>[0, 1]\<close> and \<open>Q = 1000000000\<close>
  the exact value exceeds \<open>Q / N = 500000000\<close> by \<open>1 / 2000000000\<close>. Doubles between
  \<open>2 ^ 28\<close> and \<open>2 ^ 29\<close> are \<open>1 / 2 ^ 24\<close> apart, and the excess is below half of that.
\<close>

lemma overlap_rate_gap_below_half_ulp:
  "overlap_rate [\<lparr>par_a = 1, par_b = 0, par_c = 0, exposure = 0\<rparr>,
                 \<lparr>par_a = 1, par_b = 0, par_c = 0, exposure = 1\<rparr>] 1000000000
     = Inr (500000000 + 1 / 2000000000)
 \<and> (2::real) ^ 28 \<le> 500000000 \<and> (500000000::real) < 2 ^ 29
 \<and> (1::real) / 2000000000 < 1 / 2 ^ 25"
  by (simp add: overlap_rate_def np_var_def Let_def power2_eq_square)

section \<open>The information scan and the selector\<close>


lemma scan_fst_Some:
  "fst (scan info est adm mi k items (sel, c)) = Some s \<Longrightarrow>
   sel = Some s \<or>
   (k \<le> s \<and> s < k + length items \<and> s \<notin> set adm \<and>
    mi < info est (par_a (items ! (s - k))) (par_b (items ! (s - k))) (par_c (items ! (s - k))))"
proof (induction items arbitrary: k sel c)
  case Nil
  then show ?case by simp
next
  case (Cons i rest)
  let ?sel' = "if k \<notin> set adm \<and> info est (par_a i) (par_b i) (par_c i) > mi then Some k else sel"
  from Cons.prems have "fst (scan info est adm mi (Suc k) rest (?sel', Some k)) = Some s"
    by simp
  from Cons.IH [OF this] show ?case
  proof
    assume "?sel' = Some s"
    then show ?thesis by (auto split: if_splits)
  next
    assume a: "Suc k \<le> s \<and> s < Suc k + length rest \<and> s \<notin> set adm \<and>
      mi < info est (par_a (rest ! (s - Suc k))) (par_b (rest ! (s - Suc k))) (par_c (rest ! (s - Suc k)))"
    then have "s - k = Suc (s - Suc k)" by arith
    then have "(i # rest) ! (s - k) = rest ! (s - Suc k)"
      by simp
    with a show ?thesis by auto
  qed
qed


lemma substitute_Inr:
  "substitute clusters adm cl draws = Inr (r, draws') \<Longrightarrow>
   r \<notin> set adm \<and> r < length clusters \<and> clusters ! r = cl"
  by (induction draws) (auto split: if_splits)


lemma select_item_fresh:
  assumes "select_item M clusters r_max est adm items draws = Inr (Some s, draws')"
  shows "s \<notin> set adm"
proof -
  obtain sel c where sc: "scan (irt_inf M) est adm 0 0 items (None, None) = (sel, c)"
    by (cases "scan (irt_inf M) est adm 0 0 items (None, None)")
  then have f: "fst (scan (irt_inf M) est adm 0 0 items (None, None)) = sel" by simp
  from assms sc obtain counter where c: "c = Some counter"
    by (cases c) (simp_all add: select_item_def)
  show ?thesis
  proof (cases "exposure (items ! counter) = 0
             \<or> (exposure (items ! counter) \<noteq> 0
                 \<and> real (length items) / exposure (items ! counter) \<ge> r_max)")
    case True
    with assms sc c obtain s0 where
      "substitute clusters adm (clusters ! s0) draws = Inr (s, draws')"
      by (auto simp: select_item_def Let_def split: option.splits if_splits sum.splits)
    then show ?thesis by (auto dest: substitute_Inr)
  next
    case False
    with assms sc c have "sel = Some s"
      by (auto simp: select_item_def Let_def split: option.splits if_splits sum.splits)
    with f show ?thesis by (auto dest: scan_fst_Some)
  qed
qed

lemma administer_Inr:
  assumes "administer M clusters r_max true_theta id_itens (st, ex) = Inr (st', ex')"
  shows "\<exists>s. s < length (st_items st) \<and> s \<notin> set (administered_items ex)
            \<and> administered_items ex' = administered_items ex @ [s]
            \<and> st_items st' = (st_items st)
                 [s := (st_items st ! s)\<lparr>exposure := exposure (st_items st ! s) + 1\<rparr>]
            \<and> st_heap st' = (st_heap st)[id_itens := st_heap st ! id_itens @ [s]]
            \<and> st_localResults st' = st_localResults st
            \<and> st_globalResults st' = st_globalResults st"
proof -
  from assms obtain s draws' where
    sel: "select_item M clusters r_max (est_theta ex) (administered_items ex)
            (st_items st) (st_randint st) = Inr (Some s, draws')"
    by (auto simp: administer_def split: sum.splits option.splits prod.splits)
  have fresh: "s \<notin> set (administered_items ex)"
    using sel by (rule select_item_fresh)
  from assms sel show ?thesis
    apply (intro exI [of _ s])
    apply (simp add: administer_def Let_def fresh split: if_splits list.splits sum.splits)
    apply auto
    done
qed

text \<open>
  Claim C2 says that the scan picks the not yet administered item of strictly greatest
  information, the first such index on a tie. The scan compares every item with the
  constant \<open>max_inf = 0\<close>, so it keeps the last index whose information is positive.
  Here the information is \<open>a\<^sup>2 / 4\<close> (the three-parameter model with \<open>c = 0\<close> at
  \<open>theta = b\<close>). In a bank whose item 0 has information 1 and whose item 1 has information
  \<open>1/4\<close>, nothing administered, the scan selects item 1; in a bank of two items of equal
  information it selects item 1, not the first index.
\<close>

theorem scan_selects_last_positive:
  "(1::real) / 4 < 2\<^sup>2 / 4
 \<and> fst (scan (\<lambda>theta a b c. a\<^sup>2 / 4) 0 [] 0 0
        [\<lparr>par_a = 2, par_b = 0, par_c = 0, exposure = 0\<rparr>,
         \<lparr>par_a = 1, par_b = 0, par_c = 0, exposure = 0\<rparr>] (None, None)) = Some 1
 \<and> fst (scan (\<lambda>theta a b c. a\<^sup>2 / 4) 0 [] 0 0
        [\<lparr>par_a = 1, par_b = 0, par_c = 0, exposure = 0\<rparr>,
         \<lparr>par_a = 1, par_b = 0, par_c = 0, exposure = 0\<rparr>] (None, None)) = Some 1"
  by simp

text \<open>
  Claim C1 says that the step-1 pick is accepted as it is when its exposure count is zero
  or \<open>bank_size / exposure \<ge> r_max\<close>, that substitution happens only otherwise, and that
  the count consulted is the selected item's own. In a bank of three items of one cluster,
  item 2 already administered to the examinee, \<open>r_max = 1\<close>, the step-1 pick is item 1,
  whose exposure count is 0. With exposure counts \<open>[0, 0, 1]\<close> the selector enters the
  substitution loop and returns the drawn item 0; with exposure counts \<open>[0, 0, 4]\<close>, the
  pick's own count still being 0, it returns the pick 1 and reads no draw. The test at
  line 62 reads the count of the last row of the matrix, and a true test leads into the
  substitution.
\<close>

theorem select_item_substitutes_at_zero_exposure:
  "fst (scan (irt_inf example_irt) 0 [2] 0 0
        [\<lparr>par_a = 1, par_b = 0, par_c = 0, exposure = 0\<rparr>,
         \<lparr>par_a = 1, par_b = 0, par_c = 0, exposure = 0\<rparr>,
         \<lparr>par_a = 1, par_b = 0, par_c = 0, exposure = 1\<rparr>] (None, None)) = Some 1
 \<and> select_item example_irt [0, 0, 0] 1 0 [2]
        [\<lparr>par_a = 1, par_b = 0, par_c = 0, exposure = 0\<rparr>,
         \<lparr>par_a = 1, par_b = 0, par_c = 0, exposure = 0\<rparr>,
         \<lparr>par_a = 1, par_b = 0, par_c = 0, exposure = 1\<rparr>] [0] = Inr (Some 0, [])
 \<and> select_item example_irt [0, 0, 0] 1 0 [2]
        [\<lparr>par_a = 1, par_b = 0, par_c = 0, exposure = 0\<rparr>,
         \<lparr>par_a = 1, par_b = 0, par_c = 0, exposure = 0\<rparr>,
         \<lparr>par_a = 1, par_b = 0, par_c = 0, exposure = 4\<rparr>] [0] = Inr (Some 1, [0])"
  by (simp add: select_item_def example_irt_def Let_def)




section \<open>One examinee's test\<close>

lemma run_test_distinct:
  "run_test M clusters r_max true_theta id_itens n (st, ex) = Inr (st', ex') \<Longrightarrow>
   distinct (administered_items ex) \<Longrightarrow>
   distinct (administered_items ex')
   \<and> length (administered_items ex') = length (administered_items ex) + n"
proof (induction n arbitrary: st ex)
  case 0
  then show ?case by simp
next
  case (Suc n)
  from Suc.prems(1) obtain st1 ex1 where
    a: "administer M clusters r_max true_theta id_itens (st, ex) = Inr (st1, ex1)" and
    r: "run_test M clusters r_max true_theta id_itens n (st1, ex1) = Inr (st', ex')"
    by (auto split: sum.splits)
  from administer_Inr [OF a] obtain s where
    s: "s \<notin> set (administered_items ex)" "administered_items ex1 = administered_items ex @ [s]"
    by blast
  with Suc.prems(2) have d: "distinct (administered_items ex1)" by simp
  from Suc.IH [OF r d] s show ?case by simp
qed

text \<open>
  Claim C6. No item index appears twice among the items administered to one examinee
  within one test: every round that completes appends to \<open>administered_items\<close> an index
  that was not a member (whether it comes from the scan or from the substitution loop),
  so after a test of \<open>n_itens\<close> completed rounds the list holds \<open>n_itens\<close> distinct
  indices. This holds for every bank size.
\<close>

theorem administered_items_distinct:
  "(administer M clusters r_max true_theta id_itens (st, ex) = Inr (st', ex') \<longrightarrow>
      (\<exists>s. administered_items ex' = administered_items ex @ [s]
           \<and> s \<notin> set (administered_items ex)))
 \<and> (run_test M clusters r_max true_theta id_itens n_itens
        (st0, \<lparr>est_theta = e0, administered_items = [], response_vector = []\<rparr>)
      = Inr (st1, ex1) \<longrightarrow>
      distinct (administered_items ex1) \<and> length (administered_items ex1) = n_itens)"
proof (intro conjI impI)
  assume "administer M clusters r_max true_theta id_itens (st, ex) = Inr (st', ex')"
  from administer_Inr [OF this]
  show "\<exists>s. administered_items ex' = administered_items ex @ [s]
           \<and> s \<notin> set (administered_items ex)"
    by blast
next
  assume r: "run_test M clusters r_max true_theta id_itens n_itens
        (st0, \<lparr>est_theta = e0, administered_items = [], response_vector = []\<rparr>)
      = Inr (st1, ex1)"
  from run_test_distinct [OF r] show "distinct (administered_items ex1)" by simp
next
  assume r: "run_test M clusters r_max true_theta id_itens n_itens
        (st0, \<lparr>est_theta = e0, administered_items = [], response_vector = []\<rparr>)
      = Inr (st1, ex1)"
  from run_test_distinct [OF r] show "length (administered_items ex1) = n_itens" by simp
qed

theorem administered_items_distinct_witness:
  "run_test example_irt [0, 0] 1 0 0 (Suc (Suc 0))
     (example_state [0, 1], \<lparr>est_theta = 0, administered_items = [], response_vector = []\<rparr>)
   = Inr (\<lparr>st_items = [\<lparr>par_a = 1, par_b = 0, par_c = 0, exposure = 1\<rparr>,
                         \<lparr>par_a = 1, par_b = 0, par_c = 0, exposure = 1\<rparr>],
           st_initial = [], st_randint = [], st_uniform = [], st_heap = [[0, 1]],
           st_localResults = [], st_globalResults = []\<rparr>,
          \<lparr>est_theta = 0, administered_items = [0, 1], response_vector = [True, True]\<rparr>)
 \<and> distinct [0, 1 :: nat] \<and> length [0, 1 :: nat] = Suc (Suc 0)"
proof -
  have h: "run_test example_irt [0, 0] 1 0 0 (Suc (Suc 0))
     (example_state [0, 1], \<lparr>est_theta = 0, administered_items = [], response_vector = []\<rparr>)
   = Inr (\<lparr>st_items = [\<lparr>par_a = 1, par_b = 0, par_c = 0, exposure = 1\<rparr>,
                         \<lparr>par_a = 1, par_b = 0, par_c = 0, exposure = 1\<rparr>],
           st_initial = [], st_randint = [], st_uniform = [], st_heap = [[0, 1]],
           st_localResults = [], st_globalResults = []\<rparr>,
          \<lparr>est_theta = 0, administered_items = [0, 1], response_vector = [True, True]\<rparr>)"
    by (simp add: administer_def select_item_def example_irt_def example_state_def
        append_exposure_def dodd_def Let_def)
  from administered_items_distinct [THEN conjunct2, rule_format, OF h]
  have "distinct [0, 1 :: nat] \<and> length [0, 1 :: nat] = Suc (Suc 0)" by simp
  with h show ?thesis ..
qed

section \<open>Exposure counters and result records across the run\<close>

lemma r_maxes_1: "r_maxes (Suc 0) = [1 / 10]"
  by (simp add: r_maxes_def)

lemma r_maxes_2: "r_maxes 2 = [1 / 10, 1]"
  by (simp add: r_maxes_def upt_rec numeral_2_eq_2)

lemma sum_list_map_update:
  "s < length xs \<Longrightarrow>
   sum_list (map f (xs[s := x])) = sum_list (map f xs) - f (xs ! s) + (f x :: real)"
  by (induction xs arbitrary: s) (auto split: nat.splits)

lemma administer_exposure:
  assumes "administer M clusters r_max true_theta id_itens (st, ex) = Inr (st', ex')"
  shows "list_all2 (\<lambda>x y. exposure x \<le> exposure y) (st_items st) (st_items st')
       \<and> sum_list (map exposure (st_items st')) = sum_list (map exposure (st_items st)) + 1"
proof -
  from administer_Inr [OF assms] obtain s where
    s: "s < length (st_items st)" and
    u: "st_items st' = (st_items st)
          [s := (st_items st ! s)\<lparr>exposure := exposure (st_items st ! s) + 1\<rparr>]"
    by blast
  have "list_all2 (\<lambda>x y. exposure x \<le> exposure y) (st_items st) (st_items st')"
    unfolding u list_all2_conv_all_nth using s by (auto simp: nth_list_update)
  moreover have "sum_list (map exposure (st_items st'))
      = sum_list (map exposure (st_items st)) + 1"
    unfolding u using s by (simp add: sum_list_map_update)
  ultimately show ?thesis ..
qed

lemma exposure_le_trans:
  "list_all2 (\<lambda>x y. exposure x \<le> exposure y) xs ys \<Longrightarrow>
   list_all2 (\<lambda>x y. exposure x \<le> exposure y) ys zs \<Longrightarrow>
   list_all2 (\<lambda>x y. exposure x \<le> exposure y) xs zs"
  using list_all2_trans [of "\<lambda>x y. exposure x \<le> exposure y" "\<lambda>x y. exposure x \<le> exposure y"
      "\<lambda>x y. exposure x \<le> exposure y" xs ys zs]
  by auto

lemma exposure_le_refl: "list_all2 (\<lambda>x y. exposure x \<le> exposure y) xs xs"
  by (simp add: list_all2_conv_all_nth)

lemma run_test_exposure:
  "run_test M clusters r_max true_theta id_itens n (st, ex) = Inr (st', ex') \<Longrightarrow>
   list_all2 (\<lambda>x y. exposure x \<le> exposure y) (st_items st) (st_items st')
   \<and> sum_list (map exposure (st_items st')) = sum_list (map exposure (st_items st)) + real n"
proof (induction n arbitrary: st ex)
  case 0
  then show ?case by (simp add: exposure_le_refl)
next
  case (Suc n)
  from Suc.prems obtain st1 ex1 where
    a: "administer M clusters r_max true_theta id_itens (st, ex) = Inr (st1, ex1)" and
    r: "run_test M clusters r_max true_theta id_itens n (st1, ex1) = Inr (st', ex')"
    by (auto split: sum.splits)
  from administer_exposure [OF a] Suc.IH [OF r] show ?case
    by (auto intro: exposure_le_trans)
qed

lemma examinee_exposure:
  assumes "examinee M clusters n_itens r_max id_itens true_theta st = Inr (est, st')"
  shows "list_all2 (\<lambda>x y. exposure x \<le> exposure y) (st_items st) (st_items st')
       \<and> sum_list (map exposure (st_items st'))
           = sum_list (map exposure (st_items st)) + real n_itens"
proof -
  from assms obtain e0 rest st1 ex1 where
    r: "run_test M clusters r_max true_theta id_itens n_itens
          (st\<lparr>st_initial := rest\<rparr>,
           \<lparr>est_theta = e0, administered_items = [], response_vector = []\<rparr>) = Inr (st1, ex1)" and
    i: "st_items st' = st_items st1"
    by (auto simp: examinee_def split: list.splits sum.splits)
  from run_test_exposure [OF r] i show ?thesis by simp
qed

lemma examinees_loop_exposure:
  "examinees_loop M clusters n_itens r_max id_itens thetas (ests, st) = Inr (ests', st') \<Longrightarrow>
   list_all2 (\<lambda>x y. exposure x \<le> exposure y) (st_items st) (st_items st')
   \<and> sum_list (map exposure (st_items st'))
       = sum_list (map exposure (st_items st)) + real (length thetas * n_itens)"
proof (induction thetas arbitrary: ests st)
  case Nil
  then show ?case by (simp add: exposure_le_refl)
next
  case (Cons t rest)
  from Cons.prems obtain est st1 where
    e: "examinee M clusters n_itens r_max id_itens t st = Inr (est, st1)" and
    l: "examinees_loop M clusters n_itens r_max id_itens rest (ests @ [est], st1)
          = Inr (ests', st')"
    by (auto split: sum.splits)
  from examinee_exposure [OF e] Cons.IH [OF l] show ?case
    by (auto intro: exposure_le_trans simp: algebra_simps)
qed

lemma cap_pass_exposure:
  assumes "cap_pass M clusters thetas n_itens verbose r_max st = Inr st'"
  shows "list_all2 (\<lambda>x y. exposure x \<le> exposure y) (st_items st) (st_items st')
       \<and> sum_list (map exposure (st_items st'))
           = sum_list (map exposure (st_items st)) + real (length thetas * n_itens)"
proof -
  from assms obtain ests st2 where
    l: "examinees_loop M clusters n_itens r_max (length (st_heap st)) thetas
          ([], st\<lparr>st_heap := st_heap st @ [[]]\<rparr>) = Inr (ests, st2)" and
    i: "st_items st' = st_items st2"
    by (auto simp: cap_pass_def Let_def split: if_splits sum.splits)
  from examinees_loop_exposure [OF l] i show ?thesis by simp
qed

lemma cap_loop_exposure:
  "cap_loop M clusters thetas n_itens verbose caps st = Inr st' \<Longrightarrow>
   list_all2 (\<lambda>x y. exposure x \<le> exposure y) (st_items st) (st_items st')
   \<and> sum_list (map exposure (st_items st'))
       = sum_list (map exposure (st_items st))
         + real (length caps * (length thetas * n_itens))"
proof (induction caps arbitrary: st)
  case Nil
  then show ?case by (simp add: exposure_le_refl)
next
  case (Cons r rest)
  from Cons.prems obtain st1 where
    p: "cap_pass M clusters thetas n_itens verbose r st = Inr st1" and
    l: "cap_loop M clusters thetas n_itens verbose rest st1 = Inr st'"
    by (auto split: sum.splits)
  from cap_pass_exposure [OF p] Cons.IH [OF l] show ?case
    by (auto intro: exposure_le_trans simp: algebra_simps)
qed

text \<open>
  The exposure column is all zeros when the first cap starts. Each completed round adds
  exactly 1 to the counter of the administered item and changes no other row. Over any
  number of caps no counter decreases, and the counters' total grows by
  \<open>caps \<times> examinees \<times> n_itens\<close>: nothing sets a counter back between two caps.
\<close>

lemma exposure_accumulates:
  "map exposure (st_items (initial_state g items0)) = replicate (length items0) 0
 \<and> (administer M clusters r_max true_theta id_itens (st, ex) = Inr (st', ex') \<longrightarrow>
      (\<exists>s<length (st_items st).
         st_items st' = (st_items st)
           [s := (st_items st ! s)\<lparr>exposure := exposure (st_items st ! s) + 1\<rparr>]))
 \<and> (cap_loop M clusters thetas n_itens verbose caps st0 = Inr st1 \<longrightarrow>
      length (st_items st1) = length (st_items st0)
      \<and> (\<forall>i<length (st_items st0).
            exposure (st_items st0 ! i) \<le> exposure (st_items st1 ! i))
      \<and> sum_list (map exposure (st_items st1))
          = sum_list (map exposure (st_items st0))
            + real (length caps * (length thetas * n_itens)))"
proof (intro conjI impI)
  show "map exposure (st_items (initial_state g items0)) = replicate (length items0) 0"
    by (simp add: initial_state_def append_exposure_def map_replicate_const [symmetric]
        split_def comp_def)
next
  assume "administer M clusters r_max true_theta id_itens (st, ex) = Inr (st', ex')"
  from administer_Inr [OF this]
  show "\<exists>s<length (st_items st).
         st_items st' = (st_items st)
           [s := (st_items st ! s)\<lparr>exposure := exposure (st_items st ! s) + 1\<rparr>]"
    by blast
next
  assume "cap_loop M clusters thetas n_itens verbose caps st0 = Inr st1"
  from cap_loop_exposure [OF this]
  show "length (st_items st1) = length (st_items st0)"
    by (simp add: list_all2_conv_all_nth)
next
  assume "cap_loop M clusters thetas n_itens verbose caps st0 = Inr st1"
  from cap_loop_exposure [OF this]
  show "\<forall>i<length (st_items st0). exposure (st_items st0 ! i) \<le> exposure (st_items st1 ! i)"
    by (simp add: list_all2_conv_all_nth)
next
  assume "cap_loop M clusters thetas n_itens verbose caps st0 = Inr st1"
  from cap_loop_exposure [OF this]
  show "sum_list (map exposure (st_items st1))
          = sum_list (map exposure (st_items st0))
            + real (length caps * (length thetas * n_itens))"
    by simp
qed

text \<open>
  Claim C3 says that every exposure counter is zero when the processing of each cap value
  starts, so that the counts entering a cap's aggregate record are those of that cap
  alone. With two identical items, one examinee and \<open>n_itens = 1\<close>: after the first cap
  (\<open>r_max = 0.1\<close>) the counters are \<open>[1, 0]\<close>, and the second cap starts from them. In the
  run over both caps the second aggregate record has \<open>Overlap = 1/2\<close>, computed from the
  counts \<open>[1, 1]\<close> of both caps; the counts \<open>[0, 1]\<close> of the second cap alone give 1.
\<close>

theorem exposure_carried_into_next_cap:
  "map_sum id (map exposure \<circ> st_items)
     (cap_loop example_irt [0, 0] [0] 1 False [1 / 10]
        (initial_state example_rng [(1, 0, 0), (1, 0, 0)])) = Inr [1, 0]
 \<and> map_sum id (map gr_Overlap \<circ> fst)
     (simCAT example_irt example_rng [(1, 0, 0), (1, 0, 0)] [0, 0] 1 1 2 False)
     = Inr [1, 1 / 2]
 \<and> overlap_rate [\<lparr>par_a = 1, par_b = 0, par_c = 0, exposure = 0\<rparr>,
                 \<lparr>par_a = 1, par_b = 0, par_c = 0, exposure = 1\<rparr>] 1 = Inr 1"
  by (simp add: simCAT_def r_maxes_2 cap_pass_def examinee_def administer_def select_item_def
      initial_state_def example_irt_def example_rng_def append_exposure_def dodd_def rmse_def
      mean_squared_error_def overlap_rate_def np_var_def Let_def power2_eq_square)

text \<open>
  Claim C4 says that the record appended to \<open>localResults\<close> at the end of an examinee's
  test holds that examinee's own administered items, a list of length \<open>n_itens\<close>. With two
  identical items, two examinees, \<open>n_itens = 1\<close> and one cap, the first examinee receives
  item 0 and the second item 1. Both records hold the same list object (address 0), and
  that list is \<open>[0, 1]\<close> when the second record is appended: it has length 2 and contains
  the first examinee's item.
\<close>

theorem simCAT_record_shares_id_itens:
  "simCAT example_irt example_rng [(1, 0, 0), (1, 0, 0)] [0, 0] 2 1 1 False =
     Inr ([\<lparr>gr_Qtd_Itens = 1, gr_RMSE = 0, gr_Overlap = 1 / 2, gr_r_max = 1 / 10\<rparr>],
          [\<lparr>lr_Theta = 0, lr_Est_Theta = 0, lr_Id_Itens = 0, lr_r_max = 1 / 10\<rparr>,
           \<lparr>lr_Theta = 0, lr_Est_Theta = 0, lr_Id_Itens = 0, lr_r_max = 1 / 10\<rparr>],
          [[0, 1]])"
  by (simp add: simCAT_def r_maxes_1 cap_pass_def examinee_def administer_def select_item_def
      initial_state_def example_irt_def example_rng_def append_exposure_def dodd_def rmse_def
      mean_squared_error_def overlap_rate_def np_var_def Let_def)

end
